theory Spec2Isabelle
  imports Main "HOL-Library.Sublist"
begin

section \<open>Errors\<close>

text \<open>
  A Python exception is a value of \<open>error\<close>; a function that may raise returns
  \<open>error + 'a\<close> with \<open>Inl\<close> for the exception. \<open>FileNotFoundError\<close> is the exception
  the notebook raises itself, with its message; \<open>OSFileNotFound\<close> is the one the
  library raises when it opens a file that does not exist, with the path it tried.
  \<open>IndexError\<close> and \<open>RuntimeError\<close> are the tensor library's dimension and shape
  errors, \<open>ParserError\<close> is pandas' failure to read a malformed file.
\<close>

datatype error =
    KeyError string
  | IndexError
  | RuntimeError
  | ValueError string
  | ParserError
  | FileNotFoundError string
  | OSFileNotFound "string list"
  | NotImplementedError string

definition and_then :: "error + 'a \<Rightarrow> ('a \<Rightarrow> error + 'b) \<Rightarrow> error + 'b" where
  "and_then m f = (case m of Inl e \<Rightarrow> Inl e | Inr v \<Rightarrow> f v)"

section \<open>Run configuration\<close>

text \<open>
  The two notebooks read a handful of fields of the framework's \<open>Config\<close> object. The
  class itself lives in the framework; the record below lists the fields the notebook
  code reads. A path (\<open>pathlib.Path\<close>) is the list of its components, \<open>p / name\<close>
  appends one component, and \<open>str(p)\<close> joins them with slashes.
\<close>

type_synonym path = "string list"

fun path_str :: "path \<Rightarrow> string" where
  "path_str [] = ''.''"
| "path_str [c] = c"
| "path_str (c # d # cs) = c @ ''/'' @ path_str (d # cs)"

record config =
  dynamic_inputs :: "string list"
  static_inputs :: "string list"
  hydroatlas_attributes :: "string list"
  camels_attributes :: "string list"
  use_basin_id_encoding :: bool
  number_of_basins :: int
  head :: string
  hidden_size :: int
  model :: string
  use_frequencies :: "string list"
  data_dir :: path

section \<open>Model adapter: the constructor\<close>

text \<open>
  \<open>str.lower()\<close> on the ASCII range: the letters \<open>A\<close>..\<open>Z\<close> (codes 65..90) move to
  \<open>a\<close>..\<open>z\<close>, every other character stays. No character outside ASCII lowers to one
  of the letters \<open>u\<close>, \<open>m\<close>, \<open>a\<close>, \<open>l\<close>, so for the comparison with \<open>"umal"\<close> the
  ASCII table is all that matters.
\<close>

definition lower_char :: "char \<Rightarrow> char" where
  "lower_char c =
     (let n = (of_char c :: nat)
      in if 65 \<le> n \<and> n \<le> 90 then char_of (n + 32) else c)"

definition str_lower :: "string \<Rightarrow> string" where
  "str_lower s = map lower_char s"

text \<open>
  \<^verbatim>\<open>
  input_size = len(cfg.dynamic_inputs + cfg.static_inputs + cfg.hydroatlas_attributes + cfg.camels_attributes)
  if cfg.use_basin_id_encoding:
      input_size += cfg.number_of_basins
  if cfg.head.lower() == "umal":
      input_size += 1
  \<close>
\<close>

definition input_size :: "config \<Rightarrow> int" where
  "input_size cfg =
     (let n0 = int (length (dynamic_inputs cfg @ static_inputs cfg @
                            hydroatlas_attributes cfg @ camels_attributes cfg));
          n1 = (if use_basin_id_encoding cfg then n0 + number_of_basins cfg else n0);
          n2 = (if str_lower (head cfg) = ''umal'' then n1 + 1 else n1)
      in n2)"

text \<open>
  \<open>self.gru = nn.GRU(input_size=input_size, hidden_size=cfg.hidden_size)\<close>: the
  recurrent cell the constructor builds, by the two sizes it is built with. The
  dropout layer and the head are built by the tensor library and the framework's head
  factory from \<open>cfg\<close> alone and carry no computation of the notebook.
\<close>

record rnn_cell =
  cell_input_size :: int
  cell_hidden_size :: int

definition gru_init :: "config \<Rightarrow> rnn_cell" where
  "gru_init cfg = \<lparr>cell_input_size = input_size cfg, cell_hidden_size = hidden_size cfg\<rparr>"

text \<open>
  The specification's reading of "case-insensitive match", written without
  \<open>lower\<close>: two strings match when they have the same length and agree position by
  position up to the case of an ASCII letter.
\<close>

definition is_upper :: "char \<Rightarrow> bool" where
  "is_upper c = (65 \<le> (of_char c :: nat) \<and> (of_char c :: nat) \<le> 90)"

definition same_letter :: "char \<Rightarrow> char \<Rightarrow> bool" where
  "same_letter x y =
     (x = y \<or> (is_upper x \<and> (of_char y :: nat) = of_char x + 32)
            \<or> (is_upper y \<and> (of_char x :: nat) = of_char y + 32))"

definition matches_ignoring_case :: "string \<Rightarrow> string \<Rightarrow> bool" where
  "matches_ignoring_case s t = list_all2 same_letter s t"

section \<open>Tensors\<close>

text \<open>
  A tensor is its shape and its elements in row-major order, as the tensor library
  stores a contiguous tensor. The element type stays a parameter: the notebook's code
  only moves elements around. \<open>wf_tensor\<close> says that the element count is the
  product of the shape.
\<close>

datatype 'a tensor = Tensor (shape: "nat list") (elems: "'a list")

definition wf_tensor :: "'a tensor \<Rightarrow> bool" where
  "wf_tensor t = (length (elems t) = prod_list (shape t))"

text \<open>\<open>row w xs r\<close> is the \<open>r\<close>-th block of \<open>w\<close> consecutive elements of \<open>xs\<close>.\<close>

definition row :: "nat \<Rightarrow> 'a list \<Rightarrow> nat \<Rightarrow> 'a list" where
  "row w xs r = take w (drop (r * w) xs)"

text \<open>
  \<open>feat t r\<close> is the \<open>r\<close>-th vector along the last axis, counting over the leading
  axes in row-major order; \<open>at3 t i j\<close> is \<open>t[i, j, :]\<close> of a tensor with three axes.
\<close>

definition feat :: "'a tensor \<Rightarrow> nat \<Rightarrow> 'a list" where
  "feat t r = row (last (shape t)) (elems t) r"

definition at3 :: "'a tensor \<Rightarrow> nat \<Rightarrow> nat \<Rightarrow> 'a list" where
  "at3 t i j = feat t (i * (shape t ! 1) + j)"

text \<open>
  \<open>t.transpose(0, 1)\<close> swaps the two leading axes: the block at \<open>[j, i]\<close> of the
  result is the block at \<open>[i, j]\<close> of \<open>t\<close>. A tensor with fewer than two axes has
  no axis 1 and the call raises.
\<close>

definition transpose01 :: "'a tensor \<Rightarrow> error + 'a tensor" where
  "transpose01 t =
     (case shape t of
        a # b # rest \<Rightarrow>
          Inr (Tensor (b # a # rest)
                 (concat (map (\<lambda>j. concat (map (\<lambda>i. row (prod_list rest) (elems t) (i * b + j))
                                                 [0..<a]))
                              [0..<b])))
      | _ \<Rightarrow> Inl IndexError)"

text \<open>\<open>t.unsqueeze(0)\<close> puts an axis of size 1 in front.\<close>

definition unsqueeze0 :: "'a tensor \<Rightarrow> 'a tensor" where
  "unsqueeze0 t = Tensor (1 # shape t) (elems t)"

text \<open>
  \<open>t.repeat(n, 1, 1)\<close>: a tensor with more than three axes is refused; one with fewer
  gets leading axes of size 1; then the whole tensor is laid out \<open>n\<close> times along the
  first axis.
\<close>

definition repeat3 :: "nat \<Rightarrow> 'a tensor \<Rightarrow> error + 'a tensor" where
  "repeat3 n t =
     (if length (shape t) > 3 then Inl RuntimeError
      else (case replicate (3 - length (shape t)) 1 @ shape t of
              s0 # srest \<Rightarrow> Inr (Tensor ((n * s0) # srest) (concat (replicate n (elems t))))
            | [] \<Rightarrow> Inl RuntimeError))"

text \<open>
  \<open>torch.cat(ts, dim=-1)\<close>: the tensors must agree on every axis but the last; the
  result lines up, for each position of the leading axes, the last-axis vectors of
  the tensors in the order of the list. (The library's exemption for a one-axis empty
  tensor is not modelled: \<open>forward\<close> only passes tensors with two axes or more.)
\<close>

definition cat_last :: "'a tensor list \<Rightarrow> error + 'a tensor" where
  "cat_last ts =
     (case ts of
        [] \<Rightarrow> Inl RuntimeError
      | t0 # _ \<Rightarrow>
          if list_all (\<lambda>t. shape t \<noteq> [] \<and> butlast (shape t) = butlast (shape t0)) ts
          then Inr (Tensor (butlast (shape t0) @ [sum_list (map (\<lambda>t. last (shape t)) ts)])
                      (concat (map (\<lambda>r. concat (map (\<lambda>t. feat t r) ts))
                                   [0..<prod_list (butlast (shape t0))])))
          else Inl RuntimeError)"

section \<open>Model adapter: the forward transformation\<close>

text \<open>
  The first half of \<open>forward\<close>, up to the call of the recurrent cell: the input
  dictionary is a map from keys to tensors.
  \<^verbatim>\<open>
  x_d = data['x_d'].transpose(0, 1)
  if 'x_s' in data and 'x_one_hot' in data:
      x_s = data['x_s'].unsqueeze(0).repeat(x_d.shape[0], 1, 1)
      x_one_hot = data['x_one_hot'].unsqueeze(0).repeat(x_d.shape[0], 1, 1)
      x_d = torch.cat([x_d, x_s, x_one_hot], dim=-1)
  elif 'x_s' in data:
      x_s = data['x_s'].unsqueeze(0).repeat(x_d.shape[0], 1, 1)
      x_d = torch.cat([x_d, x_s], dim=-1)
  elif 'x_one_hot' in data:
      x_one_hot = data['x_one_hot'].unsqueeze(0).repeat(x_d.shape[0], 1, 1)
      x_d = torch.cat([x_d, x_one_hot], dim=-1)
  else:
      pass
  \<close>
  \<open>x_d.shape[0]\<close> is read after the transposition succeeded, so the shape has a
  first entry.
\<close>

definition forward_inputs :: "(string \<rightharpoonup> 'a tensor) \<Rightarrow> error + 'a tensor" where
  "forward_inputs data =
     (case data ''x_d'' of
        None \<Rightarrow> Inl (KeyError ''x_d'')
      | Some xd \<Rightarrow>
          and_then (transpose01 xd) (\<lambda>x_d.
            case (data ''x_s'', data ''x_one_hot'') of
              (Some xs, Some xo) \<Rightarrow>
                and_then (repeat3 (hd (shape x_d)) (unsqueeze0 xs)) (\<lambda>x_s.
                and_then (repeat3 (hd (shape x_d)) (unsqueeze0 xo)) (\<lambda>x_one_hot.
                  cat_last [x_d, x_s, x_one_hot]))
            | (Some xs, None) \<Rightarrow>
                and_then (repeat3 (hd (shape x_d)) (unsqueeze0 xs)) (\<lambda>x_s.
                  cat_last [x_d, x_s])
            | (None, Some xo) \<Rightarrow>
                and_then (repeat3 (hd (shape x_d)) (unsqueeze0 xo)) (\<lambda>x_one_hot.
                  cat_last [x_d, x_one_hot])
            | (None, None) \<Rightarrow> Inr x_d))"

text \<open>
  The modules \<open>self.gru\<close>, \<open>self.dropout\<close> and \<open>self.head\<close> are the tensor
  library's recurrent cell and dropout layer and the framework's head; none of them is
  code of the notebooks, so they are parameters. The cell returns the output sequence
  and the final hidden state, the head a dictionary; either may raise. Dropout draws a
  random mask in training; here it is any function on tensors, one realisation of the
  mask.
\<close>

record 'a gru_model =
  gru :: "'a tensor \<Rightarrow> error + ('a tensor \<times> 'a tensor)"
  dropout :: "'a tensor \<Rightarrow> 'a tensor"
  model_head :: "'a tensor \<Rightarrow> error + (string \<rightharpoonup> 'a tensor)"

text \<open>
  \<^verbatim>\<open>
  gru_output, h_n = self.gru(input=x_d)
  h_n = h_n.transpose(0, 1)
  pred = {'h_n': h_n}
  pred.update(self.head(self.dropout(gru_output.transpose(0, 1))))
  return pred
  \<close>
  \<open>pred.update(m)\<close> adds the entries of \<open>m\<close>, which win over those of \<open>pred\<close>.
\<close>

definition forward ::
  "'a gru_model \<Rightarrow> (string \<rightharpoonup> 'a tensor) \<Rightarrow> error + (string \<rightharpoonup> 'a tensor)" where
  "forward self data =
     and_then (forward_inputs data) (\<lambda>x_d.
     and_then (gru self x_d) (\<lambda>(gru_output, h_n).
     and_then (transpose01 h_n) (\<lambda>h_n'.
     and_then (transpose01 gru_output) (\<lambda>seq.
     and_then (model_head self (dropout self seq)) (\<lambda>head_out.
       Inr ([''h_n'' \<mapsto> h_n'] ++ head_out))))))"

text \<open>
  What the input dictionary's documentation promises: \<open>x_d\<close> has the axes batch,
  time, features; \<open>x_s\<close> and \<open>x_one_hot\<close>, when present, have the axes batch,
  features. \<open>opt_width\<close> and \<open>opt_feat\<close> read the width and a feature vector of a
  tensor that may be absent.
\<close>

definition opt_width :: "'a tensor option \<Rightarrow> nat" where
  "opt_width m = (case m of None \<Rightarrow> 0 | Some t \<Rightarrow> last (shape t))"

definition opt_feat :: "'a tensor option \<Rightarrow> nat \<Rightarrow> 'a list" where
  "opt_feat m b = (case m of None \<Rightarrow> [] | Some t \<Rightarrow> feat t b)"

definition static_input_ok :: "nat \<Rightarrow> 'a tensor option \<Rightarrow> bool" where
  "static_input_ok B m =
     (case m of None \<Rightarrow> True
      | Some t \<Rightarrow> wf_tensor t \<and> length (shape t) = 2 \<and> hd (shape t) = B)"

definition well_shaped :: "nat \<Rightarrow> nat \<Rightarrow> nat \<Rightarrow> (string \<rightharpoonup> 'a tensor) \<Rightarrow> bool" where
  "well_shaped B T n_in data =
     (case data ''x_d'' of
        None \<Rightarrow> False
      | Some xd \<Rightarrow>
          wf_tensor xd \<and> length (shape xd) = 3 \<and> take 2 (shape xd) = [B, T] \<and>
          static_input_ok B (data ''x_s'') \<and> static_input_ok B (data ''x_one_hot'') \<and>
          last (shape xd) + opt_width (data ''x_s'') + opt_width (data ''x_one_hot'') = n_in)"

text \<open>
  Modelled from the spec: the recurrent cell (the tensor library's \<open>nn.GRU\<close>) is
  not in the notebooks. The specification has it run "the concatenated sequence
  through the recurrent cell, producing a full output sequence and a final hidden
  state": for an input with axes time, batch and the width it was built with, an
  output with axes time, batch, hidden width, and a hidden state with axes 1, batch,
  hidden width.
\<close>

definition gru_contract ::
  "nat \<Rightarrow> nat \<Rightarrow> nat \<Rightarrow> nat \<Rightarrow> ('a tensor \<Rightarrow> error + ('a tensor \<times> 'a tensor)) \<Rightarrow> bool" where
  "gru_contract T B n_in H g =
     (\<forall>X. wf_tensor X \<and> shape X = [T, B, n_in] \<longrightarrow>
          (\<exists>out h_n. g X = Inr (out, h_n) \<and> wf_tensor out \<and> shape out = [T, B, H] \<and>
                      wf_tensor h_n \<and> shape h_n = [1, B, H]))"

text \<open>
  Modelled from the spec: the dropout layer is not in the notebooks. The
  specification has "a dropout transformation with the configured probability,
  applied between the recurrent cell's output and the head"; it acts element by
  element, so it keeps the shape.
\<close>

definition dropout_contract :: "('a tensor \<Rightarrow> 'a tensor) \<Rightarrow> bool" where
  "dropout_contract d = (\<forall>X. shape (d X) = shape X \<and> (wf_tensor X \<longrightarrow> wf_tensor (d X)))"

text \<open>
  Modelled from the spec: the head factory \<open>get_head\<close> is not in the notebooks. The
  specification has it return "a head transformation producing a named tensor mapping
  containing at least \<open>y_hat\<close>", with \<open>y_hat\<close> "covering every timestep": for an
  input with axes batch, time, hidden width, the entry \<open>y_hat\<close> has the leading
  axes batch, time.
\<close>

definition head_contract ::
  "nat \<Rightarrow> nat \<Rightarrow> nat \<Rightarrow> ('a tensor \<Rightarrow> error + (string \<rightharpoonup> 'a tensor)) \<Rightarrow> bool" where
  "head_contract B T H hd_fn =
     (\<forall>Z. wf_tensor Z \<and> shape Z = [B, T, H] \<longrightarrow>
          (\<exists>out y. hd_fn Z = Inr out \<and> out ''y_hat'' = Some y \<and> take 2 (shape y) = [B, T]))"

text \<open>
  A small model to run \<open>forward\<close> on: a cell with hidden width 1 that answers zeros,
  dropout that keeps every element, and a head that returns its input as \<open>y_hat\<close>.
\<close>

definition demo_gru :: "nat tensor \<Rightarrow> error + (nat tensor \<times> nat tensor)" where
  "demo_gru X =
     (case shape X of
        [T, B, F] \<Rightarrow> Inr (Tensor [T, B, 1] (replicate (T * B) 0), Tensor [1, B, 1] (replicate B 0))
      | _ \<Rightarrow> Inl RuntimeError)"

definition demo_model :: "nat gru_model" where
  "demo_model = \<lparr>gru = demo_gru, dropout = (\<lambda>X. X), model_head = (\<lambda>Z. Inr [''y_hat'' \<mapsto> Z])\<rparr>"

definition demo_x_d :: "nat tensor" where
  "demo_x_d = Tensor [2, 3, 2] [111, 112, 121, 122, 131, 132, 211, 212, 221, 222, 231, 232]"

definition demo_x_s :: "nat tensor" where
  "demo_x_s = Tensor [2, 1] [71, 72]"

definition demo_x_one_hot :: "nat tensor" where
  "demo_x_one_hot = Tensor [2, 2] [1, 0, 0, 1]"

section \<open>Model registry\<close>

text \<open>
  \<open>get_model\<close> as the notebook prints it. The list \<open>SINGLE_FREQ_MODELS\<close> and the
  model classes are the framework's, so the list and the constructors (\<open>build\<close>, which
  may raise) are parameters. To speak about when construction starts, the function
  threads a log of the constructor calls made so far.
\<close>

datatype model_class = CudaLSTM | EALSTM | LSTM | GRU | EmbCudaLSTM | MTSLSTM | ODELSTM

definition construct ::
  "(model_class \<Rightarrow> config \<Rightarrow> error + 'm) \<Rightarrow> model_class list \<Rightarrow> model_class \<Rightarrow> config
     \<Rightarrow> (error + 'm) \<times> model_class list" where
  "construct build calls c cfg = (build c cfg, calls @ [c])"

definition get_model ::
  "string list \<Rightarrow> (model_class \<Rightarrow> config \<Rightarrow> error + 'm) \<Rightarrow> model_class list \<Rightarrow> config
     \<Rightarrow> (error + 'm) \<times> model_class list" where
  "get_model SINGLE_FREQ_MODELS build calls cfg =
     (if model cfg \<in> set SINGLE_FREQ_MODELS \<and> length (use_frequencies cfg) > 1
      then (Inl (ValueError (''Model '' @ model cfg @ '' does not support multiple frequencies.'')),
            calls)
      else if model cfg = ''cudalstm'' then construct build calls CudaLSTM cfg
      else if model cfg = ''ealstm'' then construct build calls EALSTM cfg
      else if model cfg = ''lstm'' then construct build calls LSTM cfg
      else if model cfg = ''gru'' then construct build calls GRU cfg
      else if model cfg = ''embcudalstm'' then construct build calls EmbCudaLSTM cfg
      else if model cfg = ''mtslstm'' then construct build calls MTSLSTM cfg
      else if model cfg = ''odelstm'' then construct build calls ODELSTM cfg
      else (Inl (NotImplementedError
                   (model cfg @ '' not implemented or not linked in '' @
                    [CHR 0x60] @ ''get_model()'' @ [CHR 0x60])),
            calls))"

section \<open>Files and tables\<close>

text \<open>
  A table (\<open>pd.DataFrame\<close>) is its row labels and its columns, each column a label
  and one cell per row. A cell is text, a number or a timestamp; the number and
  timestamp types are the library's and stay parameters.
\<close>

datatype ('n, 't) cell = Str string | Num 'n | Stamp 't

record ('n, 't) frame =
  index :: "('n, 't) cell list"
  columns :: "(('n, 't) cell \<times> ('n, 't) cell list) list"

definition wf_frame :: "('n, 't) frame \<Rightarrow> bool" where
  "wf_frame df = list_all (\<lambda>c. length (snd c) = length (index df)) (columns df)"

text \<open>
  The part of the file system the loaders touch: the directories that exist, the
  files with their contents, and a log of the accesses made, so that a statement can
  say which accesses a call attempted. No operation of the notebook writes.
\<close>

datatype io_event = IsDir path | ReadCsv path

record 'f world =
  dirs :: "path set"
  files :: "path \<rightharpoonup> 'f"
  io_log :: "io_event list"

text \<open>
  The pandas functions the notebook calls are parameters: \<open>read_csv\<close> parses the
  contents of a file under the options given and may raise; \<open>to_numeric\<close> and
  \<open>to_datetime\<close> convert one cell, \<open>None\<close> when the cell cannot be converted.
\<close>

record csv_options =
  sep :: string
  index_col :: string
  parse_dates :: "string list"

record ('f, 'n, 't) pandas =
  read_csv :: "'f \<Rightarrow> csv_options \<Rightarrow> error + ('n, 't) frame"
  to_numeric :: "('n, 't) cell \<Rightarrow> 'n option"
  to_datetime :: "('n, 't) cell \<Rightarrow> 't option"

text \<open>\<open>Path.is_dir()\<close> and \<open>pd.read_csv(path, ...)\<close> against the world.\<close>

definition is_dir :: "'f world \<Rightarrow> path \<Rightarrow> bool \<times> 'f world" where
  "is_dir w p = (p \<in> dirs w, w\<lparr>io_log := io_log w @ [IsDir p]\<rparr>)"

definition pd_read_csv ::
  "('f, 'n, 't) pandas \<Rightarrow> 'f world \<Rightarrow> path \<Rightarrow> csv_options
     \<Rightarrow> (error + ('n, 't) frame) \<times> 'f world" where
  "pd_read_csv pd w p opts =
     ((case files w p of
         None \<Rightarrow> Inl (OSFileNotFound p)
       | Some contents \<Rightarrow> read_csv pd contents opts),
      w\<lparr>io_log := io_log w @ [ReadCsv p]\<rparr>)"

text \<open>A label equals one of the strings of a list (\<open>b in basins\<close>).\<close>

definition label_in :: "('n, 't) cell \<Rightarrow> string list \<Rightarrow> bool" where
  "label_in l names = (case l of Str s \<Rightarrow> s \<in> set names | _ \<Rightarrow> False)"

text \<open>\<open>df.transpose()\<close>: rows become columns.\<close>

definition transpose_frame :: "('n, 't) frame \<Rightarrow> ('n, 't) frame" where
  "transpose_frame df =
     \<lparr>index = map fst (columns df),
      columns = map (\<lambda>i. (index df ! i, map (\<lambda>c. snd c ! i) (columns df)))
                    [0..<length (index df)]\<rparr>"

text \<open>
  \<open>df.apply(pd.to_numeric, errors='ignore')\<close>: each column is converted as a whole;
  when one of its cells cannot be converted the column is returned as it was.
\<close>

definition to_numeric_column :: "('f, 'n, 't) pandas \<Rightarrow> ('n, 't) cell list \<Rightarrow> ('n, 't) cell list" where
  "to_numeric_column pd vs =
     (case those (map (to_numeric pd) vs) of None \<Rightarrow> vs | Some ns \<Rightarrow> map Num ns)"

definition apply_to_numeric :: "('f, 'n, 't) pandas \<Rightarrow> ('n, 't) frame \<Rightarrow> ('n, 't) frame" where
  "apply_to_numeric pd df = df\<lparr>columns := map (\<lambda>c. (fst c, to_numeric_column pd (snd c))) (columns df)\<rparr>"

text \<open>
  \<open>df[name] = pd.to_datetime(df[name])\<close>: \<open>df[name]\<close> raises \<open>KeyError\<close> when no
  column has the label; \<open>to_datetime\<close> raises when a cell cannot be parsed, and also
  when the label selects several columns (it is then handed a table without year,
  month and day columns).
\<close>

definition set_datetime ::
  "('f, 'n, 't) pandas \<Rightarrow> string \<Rightarrow> ('n, 't) frame \<Rightarrow> error + ('n, 't) frame" where
  "set_datetime pd name df =
     (case filter (\<lambda>c. fst c = Str name) (columns df) of
        [] \<Rightarrow> Inl (KeyError name)
      | [c] \<Rightarrow>
          (case those (map (to_datetime pd) (snd c)) of
             None \<Rightarrow> Inl (ValueError name)
           | Some ts \<Rightarrow>
               Inr (df\<lparr>columns := map (\<lambda>c'. if fst c' = Str name then (fst c', map Stamp ts) else c')
                                       (columns df)\<rparr>))
      | _ \<Rightarrow> Inl (ValueError name))"

text \<open>
  \<open>df.drop(labels, axis=0)\<close> and \<open>df.drop(labels, axis=1)\<close>: every row (column)
  whose label is in the list goes; a label that is not on the axis raises
  \<open>KeyError\<close>.
\<close>

definition drop_rows :: "('n, 't) cell list \<Rightarrow> ('n, 't) frame \<Rightarrow> error + ('n, 't) frame" where
  "drop_rows labels df =
     (if list_all (\<lambda>l. l \<in> set (index df)) labels
      then Inr \<lparr>index = filter (\<lambda>l. l \<notin> set labels) (index df),
                columns = map (\<lambda>c. (fst c, map snd (filter (\<lambda>lv. fst lv \<notin> set labels)
                                                           (zip (index df) (snd c)))))
                              (columns df)\<rparr>
      else Inl (KeyError ''not found in axis''))"

definition drop_columns :: "('n, 't) cell list \<Rightarrow> ('n, 't) frame \<Rightarrow> error + ('n, 't) frame" where
  "drop_columns labels df =
     (if list_all (\<lambda>l. l \<in> fst ` set (columns df)) labels
      then Inr (df\<lparr>columns := filter (\<lambda>c. fst c \<notin> set labels) (columns df)\<rparr>)
      else Inl (KeyError ''not found in axis''))"

section \<open>Dataset adapter: the loading functions\<close>

text \<open>
  \<^verbatim>\<open>
  def load_camels_cl_timeseries(data_dir: Path, basin: str) -> pd.DataFrame:
      preprocessed_dir = data_dir / "preprocessed"
      if not preprocessed_dir.is_dir():
          msg = [
              f"No preprocessed data directory found at {preprocessed_dir}. Use preprocessed_camels_cl_dataset ",
               "in neuralhydrology.datasetzoo.camelscl to preprocess the CAMELS CL data set once into ",
               "per-basin files."
          ]
          raise FileNotFoundError("".join(msg))
      basin_file = preprocessed_dir / f"{basin}.csv"
      df = pd.read_csv(basin_file, index_col='date', parse_dates=['date'])
      return df
  \<close>
\<close>

definition missing_preprocessed_msg :: "path \<Rightarrow> string" where
  "missing_preprocessed_msg preprocessed_dir =
     concat [''No preprocessed data directory found at '' @ path_str preprocessed_dir @
               ''. Use preprocessed_camels_cl_dataset '',
             ''in neuralhydrology.datasetzoo.camelscl to preprocess the CAMELS CL data set once into '',
             ''per-basin files.'']"

definition load_camels_cl_timeseries ::
  "('f, 'n, 't) pandas \<Rightarrow> 'f world \<Rightarrow> path \<Rightarrow> string \<Rightarrow> (error + ('n, 't) frame) \<times> 'f world" where
  "load_camels_cl_timeseries pd w data_directory basin =
     (let preprocessed_dir = data_directory @ [''preprocessed''];
          (found, w1) = is_dir w preprocessed_dir
      in if \<not> found
         then (Inl (FileNotFoundError (missing_preprocessed_msg preprocessed_dir)), w1)
         else (let basin_file = preprocessed_dir @ [basin @ ''.csv'']
               in pd_read_csv pd w1 basin_file
                    \<lparr>sep = '','', index_col = ''date'', parse_dates = [''date'']\<rparr>))"

text \<open>
  \<^verbatim>\<open>
  def load_camels_cl_attributes(data_dir: Path, basins: List[str] = []) -> pd.DataFrame:
      attributes_file = data_dir / '1_CAMELScl_attributes.txt'
      df = pd.read_csv(attributes_file, sep="\t", index_col="gauge_id").transpose()
      df = df.apply(pd.to_numeric, errors='ignore')
      df["record_period_start"] = pd.to_datetime(df["record_period_start"])
      df["record_period_end"] = pd.to_datetime(df["record_period_end"])
      if basins:
          drop_basins = [b for b in df.index if b not in basins]
          df = df.drop(drop_basins, axis=0)
      return df
  \<close>
\<close>

definition convert_attributes ::
  "('f, 'n, 't) pandas \<Rightarrow> string list \<Rightarrow> ('n, 't) frame \<Rightarrow> error + ('n, 't) frame" where
  "convert_attributes pd basins raw =
     (let df = transpose_frame raw;
          df = apply_to_numeric pd df
      in and_then (set_datetime pd ''record_period_start'' df) (\<lambda>df.
         and_then (set_datetime pd ''record_period_end'' df) (\<lambda>df.
           if basins \<noteq> []
           then drop_rows (filter (\<lambda>b. \<not> label_in b basins) (index df)) df
           else Inr df)))"

definition load_camels_cl_attributes ::
  "('f, 'n, 't) pandas \<Rightarrow> 'f world \<Rightarrow> path \<Rightarrow> string list
     \<Rightarrow> (error + ('n, 't) frame) \<times> 'f world" where
  "load_camels_cl_attributes pd w data_directory basins =
     (let attributes_file = data_directory @ [''1_CAMELScl_attributes.txt''];
          (r, w1) = pd_read_csv pd w attributes_file
                      \<lparr>sep = [CHR 0x09], index_col = ''gauge_id'', parse_dates = []\<rparr>
      in (and_then r (convert_attributes pd basins), w1))"

section \<open>Dataset adapter: the class\<close>

text \<open>
  Of the dataset object the two methods read the configuration and the list of basins
  the base class keeps. A method that ends without \<open>return\<close> returns \<open>None\<close>.
  \<^verbatim>\<open>
  def _load_basin_data(self, basin: str) -> pd.DataFrame:
      df = load_camels_cl_timeseries(data_dir=self.cfg.data_dir, basin=basin)
      return df

  def _load_attributes(self) -> pd.DataFrame:
      if self.cfg.camels_attributes:
          df = load_camels_cl_attributes(self.cfg.data_dir, basins=self.basins)
          drop_cols = [c for c in df.columns if c not in self.cfg.camels_attributes]
          df = df.drop(drop_cols, axis=1)
          return df
  \<close>
\<close>

record camels_cl =
  ds_cfg :: config
  ds_basins :: "string list"

definition load_basin_data ::
  "('f, 'n, 't) pandas \<Rightarrow> 'f world \<Rightarrow> camels_cl \<Rightarrow> string \<Rightarrow> (error + ('n, 't) frame) \<times> 'f world" where
  "load_basin_data pd w self basin = load_camels_cl_timeseries pd w (data_dir (ds_cfg self)) basin"

definition load_attributes ::
  "('f, 'n, 't) pandas \<Rightarrow> 'f world \<Rightarrow> camels_cl \<Rightarrow> (error + ('n, 't) frame option) \<times> 'f world" where
  "load_attributes pd w self =
     (if camels_attributes (ds_cfg self) \<noteq> []
      then (let (r, w1) = load_camels_cl_attributes pd w (data_dir (ds_cfg self)) (ds_basins self)
            in (and_then r (\<lambda>df.
                  and_then (drop_columns
                              (filter (\<lambda>c. \<not> label_in c (camels_attributes (ds_cfg self)))
                                      (map fst (columns df))) df)
                           (\<lambda>df. Inr (Some df))), w1))
      else (Inr None, w))"

section \<open>The attribute table the specification describes\<close>

text \<open>
  The specification's words for the conversions, to compare the loader with: a column
  is converted to numbers where possible and passes through unchanged otherwise; the
  two date-range columns are converted to timestamps; with a basin restriction list
  the rows of the other basins are dropped. \<open>dates_readable\<close> says that each
  date-range label heads exactly one column and that the date parser accepts the
  cells of that column as the numeric conversion leaves them.
\<close>

definition date_columns :: "string list" where
  "date_columns = [''record_period_start'', ''record_period_end'']"

definition numeric_or_unchanged :: "('f, 'n, 't) pandas \<Rightarrow> ('n, 't) cell list \<Rightarrow> ('n, 't) cell list" where
  "numeric_or_unchanged pd vs =
     (if list_all (\<lambda>v. to_numeric pd v \<noteq> None) vs
      then map (\<lambda>v. Num (the (to_numeric pd v))) vs else vs)"

definition as_timestamps :: "('f, 'n, 't) pandas \<Rightarrow> ('n, 't) cell list \<Rightarrow> ('n, 't) cell list" where
  "as_timestamps pd vs = map (\<lambda>v. Stamp (the (to_datetime pd v))) vs"

definition converted_column ::
  "('f, 'n, 't) pandas \<Rightarrow> ('n, 't) cell \<times> ('n, 't) cell list \<Rightarrow> ('n, 't) cell \<times> ('n, 't) cell list" where
  "converted_column pd c =
     (fst c, if label_in (fst c) date_columns
             then as_timestamps pd (numeric_or_unchanged pd (snd c))
             else numeric_or_unchanged pd (snd c))"

definition dates_readable :: "('f, 'n, 't) pandas \<Rightarrow> ('n, 't) frame \<Rightarrow> bool" where
  "dates_readable pd df =
     list_all (\<lambda>name.
        length (filter (\<lambda>c. fst c = Str name) (columns df)) = 1 \<and>
        list_all (\<lambda>c. fst c = Str name \<longrightarrow>
                       list_all (\<lambda>v. to_datetime pd v \<noteq> None) (numeric_or_unchanged pd (snd c)))
                 (columns df))
       date_columns"

definition restrict_rows :: "string list \<Rightarrow> ('n, 't) frame \<Rightarrow> ('n, 't) frame" where
  "restrict_rows basins df =
     \<lparr>index = filter (\<lambda>l. label_in l basins) (index df),
      columns = map (\<lambda>c. (fst c, map snd (filter (\<lambda>lv. label_in (fst lv) basins)
                                                 (zip (index df) (snd c)))))
                    (columns df)\<rparr>"

definition attribute_table ::
  "('f, 'n, 't) pandas \<Rightarrow> string list \<Rightarrow> ('n, 't) frame \<Rightarrow> ('n, 't) frame" where
  "attribute_table pd basins raw =
     (let t = transpose_frame raw;
          conv = \<lparr>index = index t, columns = map (converted_column pd) (columns t)\<rparr>
      in if basins = [] then conv else restrict_rows basins conv)"

section \<open>A small stand-in for the library, to run the loaders on examples\<close>

text \<open>
  File contents are rows of text cells, the header first. The reader takes the
  column named by \<open>index_col\<close> as row labels and reads every other cell as text;
  numbers are runs of decimal digits; dates are text of the form \<open>YYYY-MM-DD\<close>. The
  stand-in accepts less than pandas does and is used on inputs where both agree.
\<close>

definition is_digit :: "char \<Rightarrow> bool" where
  "is_digit c = (48 \<le> (of_char c :: nat) \<and> (of_char c :: nat) \<le> 57)"

definition demo_read_csv :: "string list list \<Rightarrow> csv_options \<Rightarrow> error + (nat, string) frame" where
  "demo_read_csv rows opts =
     (case rows of
        [] \<Rightarrow> Inl ParserError
      | header # body \<Rightarrow>
          if index_col opts \<notin> set header
          then Inl (ValueError (''Index '' @ index_col opts @ '' invalid''))
          else if \<not> list_all (\<lambda>r. length r = length header) body then Inl ParserError
          else (let k = length (takeWhile (\<lambda>h. h \<noteq> index_col opts) header)
                in Inr \<lparr>index = map (\<lambda>r. Str (r ! k)) body,
                        columns = map (\<lambda>j. (Str (header ! j), map (\<lambda>r. Str (r ! j)) body))
                                      (filter (\<lambda>j. j \<noteq> k) [0..<length header])\<rparr>))"

definition demo_to_numeric :: "(nat, string) cell \<Rightarrow> nat option" where
  "demo_to_numeric c =
     (case c of
        Str s \<Rightarrow> if s \<noteq> [] \<and> list_all is_digit s
                 then Some (foldl (\<lambda>a d. 10 * a + (of_char d - 48)) 0 s) else None
      | Num n \<Rightarrow> Some n
      | Stamp t \<Rightarrow> None)"

definition demo_to_datetime :: "(nat, string) cell \<Rightarrow> string option" where
  "demo_to_datetime c =
     (case c of
        Str [y1, y2, y3, y4, d1, m1, m2, d2, a1, a2] \<Rightarrow>
          if d1 = CHR ''-'' \<and> d2 = CHR ''-'' \<and> list_all is_digit [y1, y2, y3, y4, m1, m2, a1, a2]
          then Some [y1, y2, y3, y4, d1, m1, m2, d2, a1, a2] else None
      | _ \<Rightarrow> None)"

definition demo_pandas :: "(string list list, nat, string) pandas" where
  "demo_pandas = \<lparr>read_csv = demo_read_csv, to_numeric = demo_to_numeric,
                  to_datetime = demo_to_datetime\<rparr>"

definition demo_attributes :: "string list list" where
  "demo_attributes =
     [[''gauge_id'', ''1001'', ''1002''],
      [''gauge_name'', ''Rio A'', ''Rio B''],
      [''area'', ''12'', ''345''],
      [''record_period_start'', ''1984-01-01'', ''1990-05-01''],
      [''record_period_end'', ''2016-12-31'', ''2016-12-31'']]"

definition demo_world :: "string list list world" where
  "demo_world =
     \<lparr>dirs = {[''data''], [''data'', ''preprocessed'']},
      files = [[''data'', ''1_CAMELScl_attributes.txt''] \<mapsto> demo_attributes,
               [''data'', ''preprocessed'', ''1001.csv''] \<mapsto>
                 [[''date'', ''streamflow_mm''], [''1984-01-01'', ''3'']]],
      io_log = []\<rparr>"

text \<open>The same attributes with one start date that is not a date, and a data
  directory that was never preprocessed.\<close>

definition undated_attributes :: "string list list" where
  "undated_attributes =
     [[''gauge_id'', ''1001'', ''1002''],
      [''gauge_name'', ''Rio A'', ''Rio B''],
      [''area'', ''12'', ''345''],
      [''record_period_start'', ''1984-01-01'', ''unknown''],
      [''record_period_end'', ''2016-12-31'', ''2016-12-31'']]"

definition undated_world :: "string list list world" where
  "undated_world =
     \<lparr>dirs = {[''data'']},
      files = [[''data'', ''1_CAMELScl_attributes.txt''] \<mapsto> undated_attributes],
      io_log = []\<rparr>"

definition demo_cfg :: config where
  "demo_cfg =
     \<lparr>dynamic_inputs = [''p'', ''t''], static_inputs = [], hydroatlas_attributes = [],
      camels_attributes = [''area''], use_basin_id_encoding = False, number_of_basins = 2,
      head = ''regression'', hidden_size = 1, model = ''gru'', use_frequencies = [''1D''],
      data_dir = [''data'']\<rparr>"

section \<open>Properties of the input width\<close>

lemma lower_char_eq_iff:
  "lower_char c = d \<longleftrightarrow>
     (if 65 \<le> (of_char c :: nat) \<and> (of_char c :: nat) \<le> 90
      then (of_char d :: nat) = of_char c + 32 else c = d)"
  unfolding lower_char_def Let_def
  by auto (metis char_of_char)

lemma lower_char_same_letter:
  "\<not> is_upper d \<Longrightarrow> lower_char c = d \<longleftrightarrow> same_letter c d"
  by (auto simp: lower_char_eq_iff same_letter_def is_upper_def)

lemma str_lower_matches:
  "\<forall>d \<in> set t. \<not> is_upper d \<Longrightarrow> str_lower s = t \<longleftrightarrow> matches_ignoring_case s t"
proof (induction s arbitrary: t)
  case Nil
  then show ?case
    by (auto simp: str_lower_def matches_ignoring_case_def)
next
  case (Cons c s)
  show ?case
  proof (cases t)
    case Nil
    then show ?thesis
      by (simp add: str_lower_def matches_ignoring_case_def)
  next
    case (Cons d t')
    with Cons.prems have d: "\<not> is_upper d" and t': "\<forall>e \<in> set t'. \<not> is_upper e"
      by simp_all
    from Cons.IH [OF t'] have "map lower_char s = t' \<longleftrightarrow> list_all2 same_letter s t'"
      by (simp add: str_lower_def matches_ignoring_case_def)
    with lower_char_same_letter [OF d, of c] Cons show ?thesis
      by (simp add: str_lower_def matches_ignoring_case_def)
  qed
qed

lemma head_is_umal:
  "str_lower h = ''umal'' \<longleftrightarrow> matches_ignoring_case h ''umal''"
  by (rule str_lower_matches) (simp add: is_upper_def)

text \<open>
  C1. For every configuration the input width of the recurrent cell that the
  constructor builds is the number of dynamic inputs plus the number of static inputs
  plus the number of hydroatlas attributes plus the number of camels attributes, plus
  \<open>number_of_basins\<close> when \<open>use_basin_id_encoding\<close> is set, plus 1 exactly when
  the head name matches \<open>umal\<close> up to the case of its letters. One equation covers
  every combination of the flag and the head.
\<close>

theorem input_size_formula:
  "cell_input_size (gru_init cfg) =
     int (length (dynamic_inputs cfg)) + int (length (static_inputs cfg)) +
     int (length (hydroatlas_attributes cfg)) + int (length (camels_attributes cfg)) +
     (if use_basin_id_encoding cfg then number_of_basins cfg else 0) +
     (if matches_ignoring_case (head cfg) ''umal'' then 1 else 0)"
  by (simp add: gru_init_def input_size_def Let_def head_is_umal)

theorem input_size_formula_witness:
  "cell_input_size (gru_init demo_cfg) = 3 \<and>
   cell_input_size (gru_init (demo_cfg\<lparr>use_basin_id_encoding := True, head := ''UMAL''\<rparr>)) = 6"
  using input_size_formula [of demo_cfg]
    input_size_formula [of "demo_cfg\<lparr>use_basin_id_encoding := True, head := ''UMAL''\<rparr>"]
  by (simp add: demo_cfg_def matches_ignoring_case_def same_letter_def is_upper_def)

section \<open>Properties of the tensor operations\<close>

lemma length_concat_map_upt:
  "(\<And>i. i < n \<Longrightarrow> length (f i) = w) \<Longrightarrow> length (concat (map f [0..<n])) = n * w"
  by (induction n) simp_all

lemma length_row:
  "length xs = n * w \<Longrightarrow> r < n \<Longrightarrow> length (row w xs r) = w"
proof -
  assume len: "length xs = n * w" and r: "r < n"
  from r have "Suc r \<le> n" by simp
  then have "Suc r * w \<le> n * w" by (rule mult_le_mono1)
  then have "w \<le> n * w - r * w" by simp
  with len show ?thesis by (simp add: row_def)
qed

lemma row_concat_map_upt:
  "(\<And>i. i < n \<Longrightarrow> length (f i) = w) \<Longrightarrow> r < n \<Longrightarrow> row w (concat (map f [0..<n])) r = f r"
proof (induction n)
  case 0
  then show ?case by simp
next
  case (Suc n)
  have len: "length (concat (map f [0..<n])) = n * w"
    using Suc.prems(1) by (intro length_concat_map_upt) simp
  show ?case
  proof (cases "r < n")
    case True
    then have "Suc r \<le> n" by simp
    then have "Suc r * w \<le> n * w" by (rule mult_le_mono1)
    then have le: "r * w + w \<le> n * w" by simp
    have "row w (concat (map f [0..<n])) r = f r"
      using Suc True by simp
    with le len show ?thesis
      by (simp add: row_def)
  next
    case False
    with Suc.prems have "r = n" by simp
    with len Suc.prems show ?thesis
      by (simp add: row_def)
  qed
qed

lemma row_row:
  "i < a \<Longrightarrow> row w (row (a * w) xs j) i = row w xs (j * a + i)"
proof -
  assume i: "i < a"
  then have "Suc i \<le> a" by simp
  then have "Suc i * w \<le> a * w" by (rule mult_le_mono1)
  then have "w \<le> a * w - i * w" by simp
  then show ?thesis
    by (simp add: row_def drop_take min_def add_mult_distrib add.commute mult.assoc)
qed

lemma flat_index_less:
  "i < a \<Longrightarrow> j < b \<Longrightarrow> i * b + j < a * (b::nat)"
proof -
  assume i: "i < a" and j: "j < b"
  from i have "Suc i \<le> a" by simp
  then have "Suc i * b \<le> a * b" by (rule mult_le_mono1)
  with j show ?thesis by simp
qed

lemma transpose01_3d:
  assumes sh: "shape t = [a, b, c]" and wf: "wf_tensor t"
  shows "\<exists>X. transpose01 t = Inr X \<and> shape X = [b, a, c] \<and> wf_tensor X \<and>
             (\<forall>j<b. \<forall>i<a. at3 X j i = at3 t i j)"
proof -
  let ?e = "elems t"
  let ?inner = "\<lambda>j. concat (map (\<lambda>i. row c ?e (i * b + j)) [0..<a])"
  let ?X = "Tensor [b, a, c] (concat (map ?inner [0..<b]))"
  have len: "length ?e = (a * b) * c"
    using sh wf by (simp add: wf_tensor_def)
  have cell: "length (row c ?e (i * b + j)) = c" if "i < a" "j < b" for i j
    using len flat_index_less [OF that] by (rule length_row)
  have inner: "length (?inner j) = a * c" if "j < b" for j
    using cell that by (intro length_concat_map_upt) simp
  have X: "transpose01 t = Inr ?X"
    using sh by (simp add: transpose01_def)
  have wfX: "wf_tensor ?X"
    using length_concat_map_upt [of b ?inner "a * c"] inner
    by (simp add: wf_tensor_def mult.assoc)
  have rows: "at3 ?X j i = at3 t i j" if "j < b" "i < a" for i j
  proof -
    have "row (a * c) (concat (map ?inner [0..<b])) j = ?inner j"
      using inner that(1) by (intro row_concat_map_upt) simp_all
    moreover have "row c (?inner j) i = row c ?e (i * b + j)"
      using cell that by (intro row_concat_map_upt) simp_all
    ultimately have "row c (concat (map ?inner [0..<b])) (j * a + i) = row c ?e (i * b + j)"
      using row_row [OF that(2), of c "concat (map ?inner [0..<b])" j] by simp
    then show ?thesis
      using sh by (simp add: at3_def feat_def)
  qed
  from X wfX rows show ?thesis
    by (intro exI [of _ ?X]) simp
qed

lemma repeat3_2d:
  assumes sh: "shape s = [b, f]" and wf: "wf_tensor s"
  shows "\<exists>Y. repeat3 n (unsqueeze0 s) = Inr Y \<and> shape Y = [n, b, f] \<and> wf_tensor Y \<and>
             (\<forall>k<n. \<forall>i<b. at3 Y k i = feat s i)"
proof -
  let ?e = "elems s"
  let ?Y = "Tensor [n, b, f] (concat (replicate n ?e))"
  have len: "length ?e = b * f"
    using sh wf by (simp add: wf_tensor_def)
  have rep: "replicate n ?e = map (\<lambda>_. ?e) [0..<n]"
    by (simp add: map_replicate_const)
  have Y: "repeat3 n (unsqueeze0 s) = Inr ?Y"
    using sh by (simp add: repeat3_def unsqueeze0_def)
  have wfY: "wf_tensor ?Y"
    using len by (simp add: wf_tensor_def length_concat sum_list_replicate)
  have rows: "at3 ?Y k i = feat s i" if "k < n" "i < b" for k i
  proof -
    have "row (b * f) (concat (map (\<lambda>_. ?e) [0..<n])) k = ?e"
      using len that(1) by (intro row_concat_map_upt) simp_all
    then have "row f (concat (replicate n ?e)) (k * b + i) = row f ?e i"
      using row_row [OF that(2), of f "concat (replicate n ?e)" k]
      by (simp add: rep row_def)
    then show ?thesis
      using sh by (simp add: at3_def feat_def)
  qed
  from Y wfY rows show ?thesis
    by (intro exI [of _ ?Y]) simp
qed

lemma shape3_butlast:
  "length s = 3 \<Longrightarrow> butlast s = [a, b] \<Longrightarrow> s = [a, b, last s]"
  by (cases s rule: rev_cases) auto

lemma cat_last_3d:
  assumes ne: "ts \<noteq> []"
    and ok: "\<And>t. t \<in> set ts \<Longrightarrow> wf_tensor t \<and> length (shape t) = 3 \<and> butlast (shape t) = [a, b]"
  shows "\<exists>Z. cat_last ts = Inr Z \<and>
             shape Z = [a, b, sum_list (map (\<lambda>t. last (shape t)) ts)] \<and> wf_tensor Z \<and>
             (\<forall>i<a. \<forall>j<b. at3 Z i j = concat (map (\<lambda>t. at3 t i j) ts))"
proof -
  let ?w = "sum_list (map (\<lambda>t. last (shape t)) ts)"
  let ?blk = "\<lambda>r. concat (map (\<lambda>t. feat t r) ts)"
  let ?Z = "Tensor [a, b, ?w] (concat (map ?blk [0..<a * b]))"
  have sh: "shape t = [a, b, last (shape t)]" if "t \<in> set ts" for t
    using ok [OF that] by (intro shape3_butlast) simp_all
  have cell: "length (feat t r) = last (shape t)" if "t \<in> set ts" "r < a * b" for t r
  proof -
    have "length (elems t) = (a * b) * last (shape t)"
      using ok [OF that(1)] sh [OF that(1)]
      by (simp add: wf_tensor_def) (metis list.simps(9) prod_list.Cons prod_list.Nil mult.assoc mult.right_neutral list.map(1))
    then show ?thesis
      using that(2) unfolding feat_def by (rule length_row)
  qed
  have blk: "length (?blk r) = ?w" if "r < a * b" for r
  proof -
    have "map (\<lambda>t. length (feat t r)) ts = map (\<lambda>t. last (shape t)) ts"
      using cell that by simp
    then have "sum_list (map (\<lambda>t. length (feat t r)) ts) = ?w"
      by (rule arg_cong)
    then show ?thesis
      by (simp add: length_concat comp_def)
  qed
  obtain t0 ts' where ts: "ts = t0 # ts'"
    using ne by (cases ts) auto
  have "butlast (shape t) = butlast (shape t0) \<and> shape t \<noteq> []" if "t \<in> set ts" for t
    using ok [OF that] ok [of t0] ts by auto
  moreover have "butlast (shape t0) = [a, b]"
    using ok [of t0] ts by simp
  ultimately have Z: "cat_last ts = Inr ?Z"
    by (simp add: cat_last_def ts list_all_iff)
  have wfZ: "wf_tensor ?Z"
    using length_concat_map_upt [of "a * b" ?blk ?w] blk
    by (simp add: wf_tensor_def)
  have rows: "at3 ?Z i j = concat (map (\<lambda>t. at3 t i j) ts)" if "i < a" "j < b" for i j
  proof -
    have "row ?w (concat (map ?blk [0..<a * b])) (i * b + j) = ?blk (i * b + j)"
      using blk flat_index_less [OF that] by (intro row_concat_map_upt) simp_all
    then have "at3 ?Z i j = ?blk (i * b + j)"
      by (simp add: at3_def feat_def)
    also have "map (\<lambda>t. feat t (i * b + j)) ts = map (\<lambda>t. at3 t i j) ts"
    proof (rule map_cong [OF refl])
      fix t assume "t \<in> set ts"
      from sh [OF this] have "shape t ! 1 = b"
        by (metis nth_Cons_0 nth_Cons_Suc One_nat_def)
      then show "feat t (i * b + j) = at3 t i j"
        by (simp add: at3_def)
    qed
    finally show ?thesis .
  qed
  from Z wfZ rows show ?thesis
    by (intro exI [of _ ?Z]) simp
qed

lemma static_input_okD:
  assumes "static_input_ok B (Some s)"
  shows "shape s = [B, last (shape s)]" and "wf_tensor s"
proof -
  from assms have l: "length (shape s) = 2" and h: "hd (shape s) = B" and w: "wf_tensor s"
    by (simp_all add: static_input_ok_def)
  from l obtain x y where "shape s = [x, y]"
    by (cases "shape s"; cases "tl (shape s)") auto
  with h show "shape s = [B, last (shape s)]" by simp
  from w show "wf_tensor s" .
qed

lemma broadcast_static:
  assumes "static_input_ok B (Some s)"
  shows "\<exists>Y. repeat3 n (unsqueeze0 s) = Inr Y \<and> shape Y = [n, B, last (shape s)] \<and>
             wf_tensor Y \<and> (\<forall>k<n. \<forall>i<B. at3 Y k i = feat s i)"
  using repeat3_2d [OF static_input_okD [OF assms]] .

section \<open>Properties of the forward transformation\<close>

lemma forward_inputs_concat:
  assumes xd: "data ''x_d'' = Some xd" and wf: "wf_tensor xd" and sh: "shape xd = [B, T, Fd]"
    and s: "static_input_ok B (data ''x_s'')"
    and h: "static_input_ok B (data ''x_one_hot'')"
  shows "\<exists>X. forward_inputs data = Inr X \<and> wf_tensor X \<and>
           shape X = [T, B, Fd + opt_width (data ''x_s'') + opt_width (data ''x_one_hot'')] \<and>
           (\<forall>t<T. \<forall>b<B. at3 X t b =
                at3 xd b t @ opt_feat (data ''x_s'') b @ opt_feat (data ''x_one_hot'') b)"
proof -
  from transpose01_3d [OF sh wf] obtain D where
    D: "transpose01 xd = Inr D" "shape D = [T, B, Fd]" "wf_tensor D"
       "\<And>t b. t < T \<Longrightarrow> b < B \<Longrightarrow> at3 D t b = at3 xd b t"
    by blast
  have okD: "wf_tensor D \<and> length (shape D) = 3 \<and> butlast (shape D) = [T, B]"
    using D by simp
  show ?thesis
  proof (cases "data ''x_s''")
    case None
    note ns = None
    show ?thesis
    proof (cases "data ''x_one_hot''")
      case None
      with ns xd D show ?thesis
        by (simp add: forward_inputs_def and_then_def opt_width_def opt_feat_def)
    next
      case (Some xo)
      from broadcast_static [of B xo T] h Some obtain Yo where
        Yo: "repeat3 T (unsqueeze0 xo) = Inr Yo" "shape Yo = [T, B, last (shape xo)]" "wf_tensor Yo"
           "\<And>t b. t < T \<Longrightarrow> b < B \<Longrightarrow> at3 Yo t b = feat xo b"
        by auto
      have "\<exists>Z. cat_last [D, Yo] = Inr Z \<and>
               shape Z = [T, B, sum_list (map (\<lambda>t. last (shape t)) [D, Yo])] \<and> wf_tensor Z \<and>
               (\<forall>i<T. \<forall>j<B. at3 Z i j = concat (map (\<lambda>t. at3 t i j) [D, Yo]))"
        using okD Yo by (intro cat_last_3d) auto
      then obtain Z where Z: "cat_last [D, Yo] = Inr Z" "shape Z = [T, B, Fd + last (shape xo)]"
        "wf_tensor Z" "\<And>i j. i < T \<Longrightarrow> j < B \<Longrightarrow> at3 Z i j = at3 D i j @ at3 Yo i j"
        using D Yo by auto
      have "forward_inputs data = Inr Z"
        using xd ns Some D Yo Z by (simp add: forward_inputs_def and_then_def)
      with Z D Yo ns Some show ?thesis
        by (simp add: opt_width_def opt_feat_def)
    qed
  next
    case (Some xs)
    note ss = Some
    from broadcast_static [of B xs T] s Some obtain Ys where
      Ys: "repeat3 T (unsqueeze0 xs) = Inr Ys" "shape Ys = [T, B, last (shape xs)]" "wf_tensor Ys"
         "\<And>t b. t < T \<Longrightarrow> b < B \<Longrightarrow> at3 Ys t b = feat xs b"
      by auto
    show ?thesis
    proof (cases "data ''x_one_hot''")
      case None
      have "\<exists>Z. cat_last [D, Ys] = Inr Z \<and>
               shape Z = [T, B, sum_list (map (\<lambda>t. last (shape t)) [D, Ys])] \<and> wf_tensor Z \<and>
               (\<forall>i<T. \<forall>j<B. at3 Z i j = concat (map (\<lambda>t. at3 t i j) [D, Ys]))"
        using okD Ys by (intro cat_last_3d) auto
      then obtain Z where Z: "cat_last [D, Ys] = Inr Z" "shape Z = [T, B, Fd + last (shape xs)]"
        "wf_tensor Z" "\<And>i j. i < T \<Longrightarrow> j < B \<Longrightarrow> at3 Z i j = at3 D i j @ at3 Ys i j"
        using D Ys by auto
      have "forward_inputs data = Inr Z"
        using xd ss None D Ys Z by (simp add: forward_inputs_def and_then_def)
      with Z D Ys ss None show ?thesis
        by (simp add: opt_width_def opt_feat_def)
    next
      case (Some xo)
      from broadcast_static [of B xo T] h Some obtain Yo where
        Yo: "repeat3 T (unsqueeze0 xo) = Inr Yo" "shape Yo = [T, B, last (shape xo)]" "wf_tensor Yo"
           "\<And>t b. t < T \<Longrightarrow> b < B \<Longrightarrow> at3 Yo t b = feat xo b"
        by auto
      have "\<exists>Z. cat_last [D, Ys, Yo] = Inr Z \<and>
               shape Z = [T, B, sum_list (map (\<lambda>t. last (shape t)) [D, Ys, Yo])] \<and> wf_tensor Z \<and>
               (\<forall>i<T. \<forall>j<B. at3 Z i j = concat (map (\<lambda>t. at3 t i j) [D, Ys, Yo]))"
        using okD Ys Yo by (intro cat_last_3d) auto
      then obtain Z where Z: "cat_last [D, Ys, Yo] = Inr Z"
        "shape Z = [T, B, Fd + last (shape xs) + last (shape xo)]"
        "wf_tensor Z"
        "\<And>i j. i < T \<Longrightarrow> j < B \<Longrightarrow> at3 Z i j = at3 D i j @ at3 Ys i j @ at3 Yo i j"
        using D Ys Yo by auto
      have "forward_inputs data = Inr Z"
        using xd ss Some D Ys Yo Z by (simp add: forward_inputs_def and_then_def)
      with Z D Ys Yo ss Some show ?thesis
        by (simp add: opt_width_def opt_feat_def)
    qed
  qed
qed


text \<open>
  C2. Let the input dictionary hold \<open>x_d\<close> with axes batch, time, features, and
  any of \<open>x_s\<close> and \<open>x_one_hot\<close>, each with axes batch, features. Then the tensor
  handed to the recurrent cell has the axes time, batch, features, and its feature
  vector at time \<open>t\<close> and batch entry \<open>b\<close> is the dynamic features of \<open>b\<close> at
  \<open>t\<close>, then the static features of \<open>b\<close>, then the one-hot encoding of \<open>b\<close>,
  an absent tensor contributing nothing: the static parts are the same at every time
  step. With neither present the tensor is the transposed \<open>x_d\<close> alone. The four
  presence cases are the four values of the two options.
\<close>

theorem forward_inputs_order:
  assumes xd: "data ''x_d'' = Some xd" and wf: "wf_tensor xd" and sh: "shape xd = [B, T, Fd]"
    and s: "static_input_ok B (data ''x_s'')"
    and h: "static_input_ok B (data ''x_one_hot'')"
  shows "\<exists>X. forward_inputs data = Inr X \<and> wf_tensor X \<and>
           shape X = [T, B, Fd + opt_width (data ''x_s'') + opt_width (data ''x_one_hot'')] \<and>
           (\<forall>t<T. \<forall>b<B. at3 X t b =
                at3 xd b t @ opt_feat (data ''x_s'') b @ opt_feat (data ''x_one_hot'') b) \<and>
           (data ''x_s'' = None \<and> data ''x_one_hot'' = None \<longrightarrow> transpose01 xd = Inr X)"
proof -
  from forward_inputs_concat [OF xd wf sh s h] obtain X where
    X: "forward_inputs data = Inr X" "wf_tensor X"
       "shape X = [T, B, Fd + opt_width (data ''x_s'') + opt_width (data ''x_one_hot'')]"
       "\<forall>t<T. \<forall>b<B. at3 X t b =
            at3 xd b t @ opt_feat (data ''x_s'') b @ opt_feat (data ''x_one_hot'') b"
    by blast
  have alone: "transpose01 xd = Inr X" if "data ''x_s'' = None" "data ''x_one_hot'' = None"
  proof (cases "transpose01 xd")
    case (Inl e)
    with xd X(1) show ?thesis
      by (simp add: forward_inputs_def and_then_def)
  next
    case (Inr D)
    with xd that X(1) show ?thesis
      by (simp add: forward_inputs_def and_then_def)
  qed
  from X alone show ?thesis
    by (intro exI [of _ X]) simp
qed

theorem forward_inputs_order_witness:
  "(\<exists>X. forward_inputs [''x_d'' \<mapsto> demo_x_d] = Inr X \<and> shape X = [3, 2, 2] \<and>
        at3 X 1 0 = [121, 122]) \<and>
   (\<exists>X. forward_inputs [''x_d'' \<mapsto> demo_x_d, ''x_s'' \<mapsto> demo_x_s] = Inr X \<and>
        shape X = [3, 2, 3] \<and> at3 X 1 0 = [121, 122, 71]) \<and>
   (\<exists>X. forward_inputs [''x_d'' \<mapsto> demo_x_d, ''x_one_hot'' \<mapsto> demo_x_one_hot] = Inr X \<and>
        shape X = [3, 2, 4] \<and> at3 X 1 0 = [121, 122, 1, 0]) \<and>
   (\<exists>X. forward_inputs [''x_d'' \<mapsto> demo_x_d, ''x_s'' \<mapsto> demo_x_s,
                          ''x_one_hot'' \<mapsto> demo_x_one_hot] = Inr X \<and>
        shape X = [3, 2, 5] \<and> at3 X 1 0 = [121, 122, 71, 1, 0])"
proof -
  have xd: "wf_tensor demo_x_d" "shape demo_x_d = [2, 3, 2]"
    by (simp_all add: wf_tensor_def demo_x_d_def)
  have xs: "static_input_ok 2 (Some demo_x_s)" "static_input_ok 2 (Some demo_x_one_hot)"
    "static_input_ok 2 (None :: nat tensor option)"
    by (simp_all add: static_input_ok_def wf_tensor_def demo_x_s_def demo_x_one_hot_def)
  have vals: "at3 demo_x_d 0 1 = [121, 122]" "feat demo_x_s 0 = [71]"
    "feat demo_x_one_hot 0 = [1, 0]"
    by (simp_all add: at3_def feat_def row_def demo_x_d_def demo_x_s_def demo_x_one_hot_def)
  have "\<exists>X. forward_inputs [''x_d'' \<mapsto> demo_x_d] = Inr X \<and> shape X = [3, 2, 2] \<and>
          at3 X 1 0 = [121, 122]"
    using forward_inputs_order [of "[''x_d'' \<mapsto> demo_x_d]" demo_x_d 2 3 2] xd xs vals
    by (auto simp: opt_width_def opt_feat_def)
  moreover
  have "\<exists>X. forward_inputs [''x_d'' \<mapsto> demo_x_d, ''x_s'' \<mapsto> demo_x_s] = Inr X \<and>
          shape X = [3, 2, 3] \<and> at3 X 1 0 = [121, 122, 71]"
    using forward_inputs_order [of "[''x_d'' \<mapsto> demo_x_d, ''x_s'' \<mapsto> demo_x_s]" demo_x_d 2 3 2]
      xd xs vals
    by (auto simp: opt_width_def opt_feat_def demo_x_s_def)
  moreover
  have "\<exists>X. forward_inputs [''x_d'' \<mapsto> demo_x_d, ''x_one_hot'' \<mapsto> demo_x_one_hot] = Inr X \<and>
          shape X = [3, 2, 4] \<and> at3 X 1 0 = [121, 122, 1, 0]"
    using forward_inputs_order
      [of "[''x_d'' \<mapsto> demo_x_d, ''x_one_hot'' \<mapsto> demo_x_one_hot]" demo_x_d 2 3 2]
      xd xs vals
    by (auto simp: opt_width_def opt_feat_def demo_x_one_hot_def)
  moreover
  have "\<exists>X. forward_inputs [''x_d'' \<mapsto> demo_x_d, ''x_s'' \<mapsto> demo_x_s,
                            ''x_one_hot'' \<mapsto> demo_x_one_hot] = Inr X \<and>
          shape X = [3, 2, 5] \<and> at3 X 1 0 = [121, 122, 71, 1, 0]"
    using forward_inputs_order
      [of "[''x_d'' \<mapsto> demo_x_d, ''x_s'' \<mapsto> demo_x_s, ''x_one_hot'' \<mapsto> demo_x_one_hot]"
          demo_x_d 2 3 2]
      xd xs vals
    by (auto simp: opt_width_def opt_feat_def demo_x_s_def demo_x_one_hot_def)
  ultimately show ?thesis by blast
qed

lemma well_shapedD:
  assumes "well_shaped B T n_in data"
  obtains xd Fd where "data ''x_d'' = Some xd" "wf_tensor xd" "shape xd = [B, T, Fd]"
    "static_input_ok B (data ''x_s'')" "static_input_ok B (data ''x_one_hot'')"
    "Fd + opt_width (data ''x_s'') + opt_width (data ''x_one_hot'') = n_in"
proof -
  from assms obtain xd where xd: "data ''x_d'' = Some xd"
    by (auto simp: well_shaped_def split: option.splits)
  with assms have f: "wf_tensor xd" "length (shape xd) = 3" "take 2 (shape xd) = [B, T]"
    "static_input_ok B (data ''x_s'')" "static_input_ok B (data ''x_one_hot'')"
    "last (shape xd) + opt_width (data ''x_s'') + opt_width (data ''x_one_hot'') = n_in"
    by (simp_all add: well_shaped_def)
  from f(2) obtain a b c where abc: "shape xd = [a, b, c]"
    by (cases "shape xd"; cases "tl (shape xd)"; cases "tl (tl (shape xd))") auto
  with f(3) have "shape xd = [B, T, c]" by simp
  with xd f abc that show thesis by simp
qed

text \<open>
  C3. For a well-shaped input dictionary, a recurrent cell, a dropout layer and a head
  that meet their contracts, \<open>forward\<close> returns a dictionary; its entry
  \<open>y_hat\<close> is the one the head returns for the dropout of the cell's whole output
  sequence, transposed back to batch first; and the two leading axes of \<open>y_hat\<close>
  are the batch size and the sequence length of \<open>x_d\<close>.
\<close>

theorem forward_y_hat:
  assumes ws: "well_shaped B T n_in data"
    and g: "gru_contract T B n_in H (gru self)"
    and d: "dropout_contract (dropout self)"
    and h: "head_contract B T H (model_head self)"
  shows "\<exists>X seq h_n Z head_out pred y.
           forward_inputs data = Inr X \<and> gru self X = Inr (seq, h_n) \<and>
           shape seq = [T, B, H] \<and> transpose01 seq = Inr Z \<and>
           model_head self (dropout self Z) = Inr head_out \<and>
           forward self data = Inr pred \<and>
           pred ''y_hat'' = head_out ''y_hat'' \<and>
           pred ''y_hat'' = Some y \<and> take 2 (shape y) = [B, T]"
proof -
  from ws obtain xd Fd where xd: "data ''x_d'' = Some xd" "wf_tensor xd" "shape xd = [B, T, Fd]"
    "static_input_ok B (data ''x_s'')" "static_input_ok B (data ''x_one_hot'')"
    "Fd + opt_width (data ''x_s'') + opt_width (data ''x_one_hot'') = n_in"
    by (rule well_shapedD)
  from forward_inputs_concat [OF xd(1-5)] xd(6) obtain X where
    X: "forward_inputs data = Inr X" "wf_tensor X" "shape X = [T, B, n_in]"
    by auto
  from g X obtain seq h_n where
    G: "gru self X = Inr (seq, h_n)" "wf_tensor seq" "shape seq = [T, B, H]"
       "wf_tensor h_n" "shape h_n = [1, B, H]"
    unfolding gru_contract_def by blast
  from transpose01_3d [OF G(5,4)] obtain h_n' where hn: "transpose01 h_n = Inr h_n'"
    by blast
  from transpose01_3d [OF G(3,2)] obtain Z where
    Z: "transpose01 seq = Inr Z" "shape Z = [B, T, H]" "wf_tensor Z"
    by blast
  from d Z have dZ: "wf_tensor (dropout self Z)" "shape (dropout self Z) = [B, T, H]"
    unfolding dropout_contract_def by simp_all
  with h obtain head_out y where
    hd: "model_head self (dropout self Z) = Inr head_out" "head_out ''y_hat'' = Some y"
        "take 2 (shape y) = [B, T]"
    unfolding head_contract_def by blast
  let ?pred = "[''h_n'' \<mapsto> h_n'] ++ head_out"
  have F: "forward self data = Inr ?pred"
    using X G hn Z hd by (simp add: forward_def and_then_def)
  have P: "?pred ''y_hat'' = head_out ''y_hat''"
    using hd(2) by (simp add: map_add_def)
  from X G Z hd F P show ?thesis
    by (intro exI [of _ X] exI [of _ seq] exI [of _ h_n] exI [of _ Z] exI [of _ head_out]
          exI [of _ ?pred] exI [of _ y]) simp
qed


theorem forward_y_hat_witness:
  "well_shaped 2 3 5 [''x_d'' \<mapsto> demo_x_d, ''x_s'' \<mapsto> demo_x_s, ''x_one_hot'' \<mapsto> demo_x_one_hot] \<and>
   gru_contract 3 2 5 1 (gru demo_model) \<and>
   dropout_contract (dropout demo_model) \<and>
   head_contract 2 3 1 (model_head demo_model) \<and>
   (\<exists>pred y. forward demo_model
                [''x_d'' \<mapsto> demo_x_d, ''x_s'' \<mapsto> demo_x_s, ''x_one_hot'' \<mapsto> demo_x_one_hot]
              = Inr pred \<and>
            pred ''y_hat'' = Some y \<and> take 2 (shape y) = [2, 3])"
proof -
  let ?data = "[''x_d'' \<mapsto> demo_x_d, ''x_s'' \<mapsto> demo_x_s, ''x_one_hot'' \<mapsto> demo_x_one_hot]"
  have ws: "well_shaped 2 3 5 ?data"
    by (simp add: well_shaped_def static_input_ok_def opt_width_def wf_tensor_def
        demo_x_d_def demo_x_s_def demo_x_one_hot_def)
  have g: "gru_contract 3 2 5 1 (gru demo_model)"
    by (simp add: gru_contract_def demo_model_def demo_gru_def wf_tensor_def)
  have d: "dropout_contract (dropout demo_model)"
    by (simp add: dropout_contract_def demo_model_def)
  have h: "head_contract 2 3 1 (model_head demo_model)"
    by (simp add: head_contract_def demo_model_def)
  from forward_y_hat [OF ws g d h] have
    "\<exists>pred y. forward demo_model ?data = Inr pred \<and> pred ''y_hat'' = Some y \<and>
        take 2 (shape y) = [2, 3]"
    by blast
  with ws g d h show ?thesis by blast
qed

section \<open>Properties of the model registry\<close>

text \<open>
  C7. When the configured model is one of the single-frequency models and more than
  one frequency is configured, \<open>get_model\<close> raises the \<open>ValueError\<close> "Model ... does
  not support multiple frequencies." and the log of constructor calls is the one it
  was given: no constructor was called, no model instance exists.
\<close>

theorem get_model_multi_frequency:
  assumes "model cfg \<in> set SINGLE_FREQ_MODELS" and "1 < length (use_frequencies cfg)"
  shows "get_model SINGLE_FREQ_MODELS build calls cfg =
           (Inl (ValueError (''Model '' @ model cfg @ '' does not support multiple frequencies.'')),
            calls) \<and>
         (\<forall>m. fst (get_model SINGLE_FREQ_MODELS build calls cfg) \<noteq> Inr m)"
  using assms by (simp add: get_model_def)

theorem get_model_multi_frequency_witness:
  "get_model [''cudalstm'', ''ealstm'', ''lstm'', ''embcudalstm''] (\<lambda>c cfg. Inr c) []
     (demo_cfg\<lparr>model := ''lstm'', use_frequencies := [''1D'', ''1H'']\<rparr>) =
   (Inl (ValueError ''Model lstm does not support multiple frequencies.''), [])"
  using get_model_multi_frequency
    [of "demo_cfg\<lparr>model := ''lstm'', use_frequencies := [''1D'', ''1H'']\<rparr>"
        "[''cudalstm'', ''ealstm'', ''lstm'', ''embcudalstm'']" "\<lambda>c cfg. Inr c" "[]"]
  by (simp add: demo_cfg_def)

section \<open>Properties of the dataset adapter\<close>

text \<open>
  C4. When the configuration lists no camels attributes, \<open>_load_attributes\<close> returns
  \<open>None\<close> without touching the file system, and \<open>None\<close> is not a table: in
  particular it is not a table with zero columns.
\<close>

theorem load_attributes_absent:
  assumes "camels_attributes (ds_cfg self) = []"
  shows "load_attributes pd w self = (Inr None, w) \<and>
         fst (load_attributes pd w self) \<noteq> Inr (Some \<lparr>index = ix, columns = []\<rparr>)"
  using assms by (simp add: load_attributes_def)

theorem load_attributes_absent_witness:
  "load_attributes demo_pandas demo_world
     \<lparr>ds_cfg = demo_cfg\<lparr>camels_attributes := []\<rparr>, ds_basins = []\<rparr> = (Inr None, demo_world)"
  using load_attributes_absent
    [of "\<lparr>ds_cfg = demo_cfg\<lparr>camels_attributes := []\<rparr>, ds_basins = []\<rparr>" demo_pandas demo_world]
  by (simp add: demo_cfg_def)

lemma label_in_iff: "label_in l names \<longleftrightarrow> l \<in> Str ` set names"
  by (cases l) (auto simp: label_in_def)

lemma drop_columns_not_in:
  "drop_columns (filter (\<lambda>c. \<not> label_in c names) (map fst (columns df))) df =
     Inr (df\<lparr>columns := filter (\<lambda>c. label_in (fst c) names) (columns df)\<rparr>)"
proof -
  let ?drop = "filter (\<lambda>c. \<not> label_in c names) (map fst (columns df))"
  have "list_all (\<lambda>l. l \<in> fst ` set (columns df)) ?drop"
    by (auto simp: list_all_iff)
  moreover have "filter (\<lambda>c. fst c \<notin> set ?drop) (columns df) =
                 filter (\<lambda>c. label_in (fst c) names) (columns df)"
    by (rule filter_cong) auto
  ultimately show ?thesis
    by (simp add: drop_columns_def)
qed

lemma filtered_labels:
  fixes cols :: "(('n, 't) cell \<times> 'v) list"
  assumes "Str ` set names \<subseteq> fst ` set cols"
  shows "fst ` set (filter (\<lambda>c. label_in (fst c) names) cols) = Str ` set names"
proof
  show "fst ` set (filter (\<lambda>c. label_in (fst c) names) cols) \<subseteq> Str ` set names"
    by (auto simp: label_in_iff)
  show "Str ` set names \<subseteq> fst ` set (filter (\<lambda>c. label_in (fst c) names) cols)"
  proof
    fix l :: "('n, 't) cell"
    assume l: "l \<in> Str ` set names"
    with assms obtain c where "c \<in> set cols" "fst c = l"
      by auto
    with l show "l \<in> fst ` set (filter (\<lambda>c. label_in (fst c) names) cols)"
      by (force simp: label_in_iff)
  qed
qed

text \<open>
  C5. When the configuration lists camels attributes and the attribute table that
  \<open>load_camels_cl_attributes\<close> returns has a column for each of them, the table
  \<open>_load_attributes\<close> returns has exactly the configured labels as column labels:
  its columns are those columns of the loaded table whose label is configured, each
  with its cells, and the rows are the loaded table's.
\<close>

theorem load_attributes_columns:
  assumes ne: "camels_attributes (ds_cfg self) \<noteq> []"
    and ld: "load_camels_cl_attributes pd w (data_dir (ds_cfg self)) (ds_basins self) = (Inr df, w1)"
    and sup: "Str ` set (camels_attributes (ds_cfg self)) \<subseteq> fst ` set (columns df)"
  shows "\<exists>df'. load_attributes pd w self = (Inr (Some df'), w1) \<and>
           fst ` set (columns df') = Str ` set (camels_attributes (ds_cfg self)) \<and>
           columns df' = filter (\<lambda>c. label_in (fst c) (camels_attributes (ds_cfg self))) (columns df) \<and>
           index df' = index df"
proof -
  let ?attrs = "camels_attributes (ds_cfg self)"
  let ?df' = "df\<lparr>columns := filter (\<lambda>c. label_in (fst c) ?attrs) (columns df)\<rparr>"
  have "load_attributes pd w self = (Inr (Some ?df'), w1)"
    using ne ld by (simp add: load_attributes_def and_then_def drop_columns_not_in)
  moreover have "fst ` set (columns ?df') = Str ` set ?attrs"
    using filtered_labels [OF sup] by simp
  ultimately show ?thesis
    by (intro exI [of _ ?df']) simp
qed

theorem load_attributes_columns_witness:
  "\<exists>df'. fst (load_attributes demo_pandas demo_world \<lparr>ds_cfg = demo_cfg, ds_basins = []\<rparr>) =
           Inr (Some df') \<and>
         fst ` set (columns df') = {Str ''area''} \<and>
         columns df' = [(Str ''area'', [Num 12, Num 345])]"
proof -
  let ?self = "\<lparr>ds_cfg = demo_cfg, ds_basins = []\<rparr>"
  let ?df = "\<lparr>index = [Str ''1001'', Str ''1002''],
              columns = [(Str ''gauge_name'', [Str ''Rio A'', Str ''Rio B'']),
                         (Str ''area'', [Num 12, Num 345]),
                         (Str ''record_period_start'', [Stamp ''1984-01-01'', Stamp ''1990-05-01'']),
                         (Str ''record_period_end'', [Stamp ''2016-12-31'', Stamp ''2016-12-31''])]\<rparr>
             :: (nat, string) frame"
  have "fst (load_camels_cl_attributes demo_pandas demo_world [''data''] []) = Inr ?df"
    by code_simp
  then obtain w1 where
    ld: "load_camels_cl_attributes demo_pandas demo_world (data_dir (ds_cfg ?self)) (ds_basins ?self)
           = (Inr ?df, w1)"
    by (cases "load_camels_cl_attributes demo_pandas demo_world [''data''] []")
       (simp add: demo_cfg_def)
  have ne: "camels_attributes (ds_cfg ?self) \<noteq> []"
    by (simp add: demo_cfg_def)
  have sup: "Str ` set (camels_attributes (ds_cfg ?self)) \<subseteq> fst ` set (columns ?df)"
    by (simp add: demo_cfg_def)
  from load_attributes_columns [OF ne ld sup] show ?thesis
    by (auto simp: demo_cfg_def label_in_def)
qed

text \<open>
  C9. Two calls of \<open>load_camels_cl_attributes\<close> with the same arguments, the second
  in the world the first one leaves, return the same result, and the files and
  directories are the ones before the first call.
\<close>

theorem load_attributes_twice:
  "(let (r1, w1) = load_camels_cl_attributes pd w data_directory basins;
        (r2, w2) = load_camels_cl_attributes pd w1 data_directory basins
    in r1 = r2 \<and> files w2 = files w \<and> dirs w2 = dirs w)"
  by (simp add: load_camels_cl_attributes_def pd_read_csv_def Let_def)

section \<open>Properties of the time series loader\<close>

lemma sublist_middle: "sublist ys (xs @ ys @ zs)"
  unfolding sublist_def by blast

lemma missing_preprocessed_msg_word:
  "sublist ''preprocessed'' (missing_preprocessed_msg p)"
proof -
  have "missing_preprocessed_msg p =
          ''No '' @ ''preprocessed'' @
          ('' data directory found at '' @ path_str p @ ''. Use preprocessed_camels_cl_dataset '' @
           ''in neuralhydrology.datasetzoo.camelscl to preprocess the CAMELS CL data set once into '' @
           ''per-basin files.'')"
    by (simp add: missing_preprocessed_msg_def)
  then show ?thesis
    by (simp only: sublist_middle)
qed

text \<open>
  When the \<open>preprocessed\<close> directory does not exist the loader raises
  \<open>FileNotFoundError\<close> with a message that contains the word \<open>preprocessed\<close>; the only
  access made is the directory test, so no file was read, and files and directories
  are untouched, so nothing was preprocessed.
\<close>

lemma timeseries_missing_directory:
  assumes "data_directory @ [''preprocessed''] \<notin> dirs w"
  shows "load_camels_cl_timeseries pd w data_directory basin =
           (Inl (FileNotFoundError (missing_preprocessed_msg (data_directory @ [''preprocessed'']))),
            w\<lparr>io_log := io_log w @ [IsDir (data_directory @ [''preprocessed''])]\<rparr>)"
    and "sublist ''preprocessed'' (missing_preprocessed_msg (data_directory @ [''preprocessed'']))"
  using assms
  by (simp_all add: load_camels_cl_timeseries_def is_dir_def Let_def missing_preprocessed_msg_word)

text \<open>
  C6. With a data directory that was never preprocessed, the loader raises
  \<open>FileNotFoundError\<close> after the directory test alone. Its message contains the word
  \<open>preprocessed\<close> and sends the reader to \<open>preprocessed_camels_cl_dataset\<close>, while
  the notebook's text names the preprocessing function \<open>preprocess_camels_cl_dataset\<close>:
  that name does not occur in the message.
\<close>

theorem timeseries_remediation_text:
  "fst (load_camels_cl_timeseries demo_pandas undated_world [''data''] ''1001'') =
     Inl (FileNotFoundError
       (''No preprocessed data directory found at data/preprocessed. '' @
        ''Use preprocessed_camels_cl_dataset in neuralhydrology.datasetzoo.camelscl '' @
        ''to preprocess the CAMELS CL data set once into per-basin files.'')) \<and>
   io_log (snd (load_camels_cl_timeseries demo_pandas undated_world [''data''] ''1001'')) =
     [IsDir [''data'', ''preprocessed'']] \<and>
   sublist ''preprocessed'' (missing_preprocessed_msg [''data'', ''preprocessed'']) \<and>
   sublist ''preprocessed_camels_cl_dataset'' (missing_preprocessed_msg [''data'', ''preprocessed'']) \<and>
   \<not> sublist ''preprocess_camels_cl_dataset'' (missing_preprocessed_msg [''data'', ''preprocessed''])"
proof -
  have found: "sublist ''preprocessed_camels_cl_dataset'' (missing_preprocessed_msg [''data'', ''preprocessed''])"
    by code_simp
  have absent: "\<not> sublist ''preprocess_camels_cl_dataset'' (missing_preprocessed_msg [''data'', ''preprocessed''])"
    by code_simp
  have word: "sublist ''preprocessed'' (missing_preprocessed_msg [''data'', ''preprocessed''])"
    by (rule missing_preprocessed_msg_word)
  have run: "fst (load_camels_cl_timeseries demo_pandas undated_world [''data''] ''1001'') =
      Inl (FileNotFoundError
        (''No preprocessed data directory found at data/preprocessed. '' @
         ''Use preprocessed_camels_cl_dataset in neuralhydrology.datasetzoo.camelscl '' @
         ''to preprocess the CAMELS CL data set once into per-basin files.''))"
    "io_log (snd (load_camels_cl_timeseries demo_pandas undated_world [''data''] ''1001'')) =
      [IsDir [''data'', ''preprocessed'']]"
    by (simp_all add: load_camels_cl_timeseries_def is_dir_def Let_def
        missing_preprocessed_msg_def undated_world_def)
  from run word found absent show ?thesis
    by (intro conjI)
qed

text \<open>
  C10. The loader's own check is about the directory alone. When the \<open>preprocessed\<close>
  directory exists and the basin's file does not, the check passes, the read is
  attempted, and the error is the library's for a missing file, carrying the path:
  it is not the loader's \<open>FileNotFoundError\<close> with the remediation message.
\<close>

theorem timeseries_missing_file:
  assumes "data_directory @ [''preprocessed''] \<in> dirs w"
    and "files w (data_directory @ [''preprocessed'', basin @ ''.csv'']) = None"
  shows "load_camels_cl_timeseries pd w data_directory basin =
           (Inl (OSFileNotFound (data_directory @ [''preprocessed'', basin @ ''.csv''])),
            w\<lparr>io_log := io_log w @ [IsDir (data_directory @ [''preprocessed'']),
                                    ReadCsv (data_directory @ [''preprocessed'', basin @ ''.csv''])]\<rparr>) \<and>
         (\<forall>msg. fst (load_camels_cl_timeseries pd w data_directory basin) \<noteq>
                  Inl (FileNotFoundError msg))"
  using assms
  by (simp add: load_camels_cl_timeseries_def is_dir_def pd_read_csv_def Let_def)

theorem timeseries_missing_file_witness:
  "fst (load_camels_cl_timeseries demo_pandas demo_world [''data''] ''1003'') =
     Inl (OSFileNotFound [''data'', ''preprocessed'', ''1003.csv'']) \<and>
   io_log (snd (load_camels_cl_timeseries demo_pandas demo_world [''data''] ''1003'')) =
     [IsDir [''data'', ''preprocessed''], ReadCsv [''data'', ''preprocessed'', ''1003.csv'']]"
  using timeseries_missing_file [of "[''data'']" demo_world "''1003''" demo_pandas]
  by (simp add: demo_world_def)

section \<open>Properties of the attribute loader\<close>

text \<open>A transposed table is rectangular: every column has one cell per row label.\<close>

lemma wf_transpose_frame: "wf_frame (transpose_frame df)"
  by (simp add: wf_frame_def transpose_frame_def list_all_iff)

lemma those_map:
  "those (map f xs) =
     (if list_all (\<lambda>x. f x \<noteq> None) xs then Some (map (\<lambda>x. the (f x)) xs) else None)"
  by (induction xs) (auto split: option.splits)

lemma to_numeric_column_eq: "to_numeric_column pd vs = numeric_or_unchanged pd vs"
  by (simp add: to_numeric_column_def numeric_or_unchanged_def those_map comp_def)

lemma filter_singleton_unique:
  assumes "filter P xs = [c]" and "x \<in> set xs" and "P x"
  shows "x = c"
proof -
  from assms(2,3) have "x \<in> set (filter P xs)" by simp
  with assms(1) show ?thesis by simp
qed

lemma set_datetime_ok:
  assumes one: "filter (\<lambda>c. fst c = Str name) (columns df) = [c]"
    and ok: "list_all (\<lambda>v. to_datetime pd v \<noteq> None) (snd c)"
  shows "set_datetime pd name df =
           Inr (df\<lparr>columns := map (\<lambda>c'. if fst c' = Str name
                                         then (fst c', as_timestamps pd (snd c')) else c')
                                   (columns df)\<rparr>)"
proof -
  have "map (\<lambda>c'. if fst c' = Str name then (fst c', map Stamp (map (\<lambda>v. the (to_datetime pd v)) (snd c))) else c')
          (columns df) =
        map (\<lambda>c'. if fst c' = Str name then (fst c', as_timestamps pd (snd c')) else c') (columns df)"
  proof (rule map_cong [OF refl])
    fix x assume x: "x \<in> set (columns df)"
    show "(if fst x = Str name then (fst x, map Stamp (map (\<lambda>v. the (to_datetime pd v)) (snd c))) else x) =
          (if fst x = Str name then (fst x, as_timestamps pd (snd x)) else x)"
    proof (cases "fst x = Str name")
      case True
      with filter_singleton_unique [OF one x] have "x = c" by simp
      then show ?thesis by (simp add: as_timestamps_def)
    next
      case False
      then show ?thesis by simp
    qed
  qed
  with one ok show ?thesis
    by (simp add: set_datetime_def those_map)
qed

lemma dates_readableD:
  assumes "dates_readable pd df" and "name \<in> set date_columns"
  obtains c where "filter (\<lambda>c. fst c = Str name) (columns df) = [c]"
    and "fst c = Str name"
    and "list_all (\<lambda>v. to_datetime pd v \<noteq> None) (numeric_or_unchanged pd (snd c))"
proof -
  from assms have len: "length (filter (\<lambda>c. fst c = Str name) (columns df)) = 1"
    and all: "\<And>c. c \<in> set (columns df) \<Longrightarrow> fst c = Str name \<Longrightarrow>
                list_all (\<lambda>v. to_datetime pd v \<noteq> None) (numeric_or_unchanged pd (snd c))"
    by (auto simp: dates_readable_def list_all_iff)
  from len obtain c where c: "filter (\<lambda>c. fst c = Str name) (columns df) = [c]"
    by (cases "filter (\<lambda>c. fst c = Str name) (columns df)") auto
  then have "c \<in> set (filter (\<lambda>c. fst c = Str name) (columns df))"
    by simp
  then have "c \<in> set (columns df)" "fst c = Str name"
    by simp_all
  with c all that show thesis by blast
qed

lemma filter_label_map:
  assumes "\<And>c. fst (g c) = fst c"
  shows "filter (\<lambda>c. fst c = l) (map g cs) = map g (filter (\<lambda>c. fst c = l) cs)"
  using assms by (induction cs) simp_all

lemma drop_rows_not_in:
  "drop_rows (filter (\<lambda>b. \<not> label_in b basins) (index df)) df = Inr (restrict_rows basins df)"
proof -
  let ?drop = "filter (\<lambda>b. \<not> label_in b basins) (index df)"
  have on_axis: "list_all (\<lambda>l. l \<in> set (index df)) ?drop"
    by (auto simp: list_all_iff)
  have rows: "filter (\<lambda>l. l \<notin> set ?drop) (index df) = filter (\<lambda>l. label_in l basins) (index df)"
    by (rule filter_cong) auto
  have cells: "filter (\<lambda>lv. fst lv \<notin> set ?drop) (zip (index df) vs) =
               filter (\<lambda>lv. label_in (fst lv) basins) (zip (index df) vs)" for vs
    by (rule filter_cong) (auto dest: set_zip_leftD)
  show ?thesis
    by (simp only: drop_rows_def restrict_rows_def on_axis rows cells if_True)
qed

lemma convert_attributes_columns:
  assumes dates: "dates_readable pd (transpose_frame raw)"
  shows "convert_attributes pd basins raw = Inr (attribute_table pd basins raw)"
proof -
  let ?T = "transpose_frame raw"
  let ?rps = "''record_period_start''" and ?rpe = "''record_period_end''"
  let ?g0 = "\<lambda>c. (fst c, numeric_or_unchanged pd (snd c))"
  let ?g1 = "\<lambda>c'. if fst c' = Str ?rps then (fst c', as_timestamps pd (snd c')) else c'"
  let ?g2 = "\<lambda>c'. if fst c' = Str ?rpe then (fst c', as_timestamps pd (snd c')) else c'"
  let ?N = "apply_to_numeric pd ?T"
  let ?D1 = "?N\<lparr>columns := map ?g1 (columns ?N)\<rparr>"
  let ?D2 = "?D1\<lparr>columns := map ?g2 (columns ?D1)\<rparr>"
  have N: "columns ?N = map ?g0 (columns ?T)"
    by (simp add: apply_to_numeric_def to_numeric_column_eq)
  from dates obtain c1 where c1: "filter (\<lambda>c. fst c = Str ?rps) (columns ?T) = [c1]"
    "fst c1 = Str ?rps"
    "list_all (\<lambda>v. to_datetime pd v \<noteq> None) (numeric_or_unchanged pd (snd c1))"
    by (rule dates_readableD [where name = ?rps]) (simp_all add: date_columns_def)
  from dates obtain c2 where c2: "filter (\<lambda>c. fst c = Str ?rpe) (columns ?T) = [c2]"
    "fst c2 = Str ?rpe"
    "list_all (\<lambda>v. to_datetime pd v \<noteq> None) (numeric_or_unchanged pd (snd c2))"
    by (rule dates_readableD [where name = ?rpe]) (simp_all add: date_columns_def)
  have "filter (\<lambda>c. fst c = Str ?rps) (columns ?N) = [?g0 c1]"
    using c1(1) by (simp add: N filter_label_map)
  moreover have "list_all (\<lambda>v. to_datetime pd v \<noteq> None) (snd (?g0 c1))"
    using c1(3) by simp
  ultimately have S1: "set_datetime pd ?rps ?N = Inr ?D1"
    by (rule set_datetime_ok)
  have "filter (\<lambda>c. fst c = Str ?rpe) (columns ?D1) = map ?g1 (map ?g0 [c2])"
    using c2(1) by (simp add: N filter_label_map)
  then have "filter (\<lambda>c. fst c = Str ?rpe) (columns ?D1) = [?g0 c2]"
    using c2(2) by simp
  moreover have "list_all (\<lambda>v. to_datetime pd v \<noteq> None) (snd (?g0 c2))"
    using c2(3) by simp
  ultimately have S2: "set_datetime pd ?rpe ?D1 = Inr ?D2"
    by (rule set_datetime_ok)
  have cols: "columns ?D2 = map (converted_column pd) (columns ?T)"
    by (simp add: N converted_column_def label_in_iff date_columns_def comp_def)
  have idx: "index ?D2 = index ?T"
    by (simp add: apply_to_numeric_def)
  have D2: "?D2 = \<lparr>index = index ?T, columns = map (converted_column pd) (columns ?T)\<rparr>"
    using cols idx by simp
  show ?thesis
  proof (cases "basins = []")
    case True
    then have "convert_attributes pd basins raw = Inr ?D2"
      using S1 S2 by (simp add: convert_attributes_def and_then_def Let_def)
    with True D2 show ?thesis
      by (simp add: attribute_table_def Let_def)
  next
    case False
    have "drop_rows (filter (\<lambda>b. \<not> label_in b basins) (index ?D2)) ?D2 =
            Inr (restrict_rows basins ?D2)"
      by (rule drop_rows_not_in)
    with False S1 S2 have "convert_attributes pd basins raw = Inr (restrict_rows basins ?D2)"
      by (simp add: convert_attributes_def and_then_def Let_def)
    with False D2 show ?thesis
      by (simp add: attribute_table_def Let_def)
  qed
qed

text \<open>
  C8, as amended. Take an attributes file that pandas reads, whose table has one
  column for each of the two date-range labels, with cells the date parser accepts.
  Then loading succeeds whatever the other cells hold, and the loaded table is the
  transposed file with its columns converted: a column whose cells all convert to
  numbers holds the numbers, any other column is unchanged, and the two date-range
  columns are, after that, converted to timestamps; with a basin list the rows of
  the listed basins remain.
\<close>

theorem attributes_conversion:
  assumes present: "files w (data_directory @ [''1_CAMELScl_attributes.txt'']) = Some contents"
    and rd: "read_csv pd contents \<lparr>sep = [CHR 0x09], index_col = ''gauge_id'', parse_dates = []\<rparr>
               = Inr raw"
    and dates: "dates_readable pd (transpose_frame raw)"
  shows "fst (load_camels_cl_attributes pd w data_directory basins) =
           Inr (attribute_table pd basins raw)"
proof -
  have "fst (load_camels_cl_attributes pd w data_directory basins) =
          convert_attributes pd basins raw"
    using present rd
    by (simp add: load_camels_cl_attributes_def pd_read_csv_def Let_def and_then_def)
  with convert_attributes_columns [OF dates, of basins] show ?thesis
    by simp
qed

theorem attributes_conversion_witness:
  "fst (load_camels_cl_attributes demo_pandas demo_world [''data''] [''1002'']) =
     Inr \<lparr>index = [Str ''1002''],
          columns = [(Str ''gauge_name'', [Str ''Rio B'']),
                     (Str ''area'', [Num 345]),
                     (Str ''record_period_start'', [Stamp ''1990-05-01'']),
                     (Str ''record_period_end'', [Stamp ''2016-12-31''])]\<rparr>"
proof -
  let ?raw = "\<lparr>index = [Str ''gauge_name'', Str ''area'', Str ''record_period_start'',
                         Str ''record_period_end''],
               columns = [(Str ''1001'', [Str ''Rio A'', Str ''12'', Str ''1984-01-01'', Str ''2016-12-31'']),
                          (Str ''1002'', [Str ''Rio B'', Str ''345'', Str ''1990-05-01'', Str ''2016-12-31''])]\<rparr>
              :: (nat, string) frame"
  have present: "files demo_world ([''data''] @ [''1_CAMELScl_attributes.txt'']) = Some demo_attributes"
    by (simp add: demo_world_def)
  have rd: "read_csv demo_pandas demo_attributes
              \<lparr>sep = [CHR 0x09], index_col = ''gauge_id'', parse_dates = []\<rparr> = Inr ?raw"
    by code_simp
  have dates: "dates_readable demo_pandas (transpose_frame ?raw)"
    by code_simp
  have tab: "attribute_table demo_pandas [''1002''] ?raw =
        \<lparr>index = [Str ''1002''],
         columns = [(Str ''gauge_name'', [Str ''Rio B'']),
                    (Str ''area'', [Num 345]),
                    (Str ''record_period_start'', [Stamp ''1990-05-01'']),
                    (Str ''record_period_end'', [Stamp ''2016-12-31''])]\<rparr>"
    by code_simp
  from attributes_conversion [OF present rd dates, of "[''1002'']"] tab show ?thesis
    by simp
qed

text \<open>
  C8 as stated fails: the file of \<open>undated_world\<close> differs from the one of
  \<open>demo_world\<close> in one cell, a start date that reads \<open>unknown\<close>, and loading it
  raises.
\<close>

theorem attributes_unreadable_date:
  "fst (load_camels_cl_attributes demo_pandas undated_world [''data''] []) =
     Inl (ValueError ''record_period_start'')"
  by code_simp

end
